theory Spec2Isabelle
  imports Complex_Main "HOL-Library.AList"
begin

section \<open>Running statistics: the accumulators of runstat.py\<close>

text \<open>
  A shallow embedding of \<^verbatim>\<open>src/predeval/runstat.py\<close>: the classes \<^verbatim>\<open>RunStat\<close>,
  \<^verbatim>\<open>Counter\<close> and \<^verbatim>\<open>NumStat\<close>. Objects are records, a method takes the receiver and
  returns the state the receiver is left in, together with the exception when one is
  raised. Rendering (\<^verbatim>\<open>out\<close>, \<^verbatim>\<open>csv\<close>, \<^verbatim>\<open>__str__\<close>) and \<^verbatim>\<open>entropy\<close> live in the
  module \<^verbatim>\<open>util\<close> and are not modelled. \<^verbatim>\<open>mean\<close> and \<^verbatim>\<open>stdDev\<close> are left out as
  well: what they return rests on the rounding and the underflow of doubles, which this
  model does not have.
\<close>

subsection \<open>Python values\<close>

text \<open>
  A Python float is modelled as an extended real with a NaN: sums and products are
  exact (no rounding, no overflow to infinity, no underflow, no signed zero), and the
  special values combine as IEEE 754 prescribes. Comparisons with NaN are false, as in
  Python. The stored sums of a NumStat are therefore the exact sums, which the doubles
  of the source approximate; comparisons of observations and the extrema, which copy
  observations, involve no arithmetic.
\<close>

datatype pyfloat = Fin real | PInf | NInf | NaN

fun isnan :: "pyfloat \<Rightarrow> bool" where
  "isnan NaN = True"
| "isnan _ = False"

text \<open>\<^verbatim>\<open>a == b\<close> on floats.\<close>

fun feq :: "pyfloat \<Rightarrow> pyfloat \<Rightarrow> bool" where
  "feq NaN _ = False"
| "feq _ NaN = False"
| "feq a b = (a = b)"

text \<open>\<^verbatim>\<open>a < b\<close> on floats; \<^verbatim>\<open>a > b\<close> is \<open>flt b a\<close>.\<close>

fun flt :: "pyfloat \<Rightarrow> pyfloat \<Rightarrow> bool" where
  "flt NaN _ = False"
| "flt _ NaN = False"
| "flt (Fin x) (Fin y) = (x < y)"
| "flt (Fin x) PInf = True"
| "flt NInf (Fin y) = True"
| "flt NInf PInf = True"
| "flt _ _ = False"

definition fgt :: "pyfloat \<Rightarrow> pyfloat \<Rightarrow> bool" where
  "fgt a b = flt b a"

fun fadd :: "pyfloat \<Rightarrow> pyfloat \<Rightarrow> pyfloat" where
  "fadd NaN _ = NaN"
| "fadd _ NaN = NaN"
| "fadd (Fin x) (Fin y) = Fin (x + y)"
| "fadd PInf NInf = NaN"
| "fadd NInf PInf = NaN"
| "fadd PInf _ = PInf"
| "fadd _ PInf = PInf"
| "fadd NInf _ = NInf"
| "fadd _ NInf = NInf"

text \<open>
  An infinity (positive when \<open>pos\<close>) times the finite \<open>x\<close>: the sign follows
  that of \<open>x\<close>, and the product with zero is NaN.
\<close>

definition inf_times :: "bool \<Rightarrow> real \<Rightarrow> pyfloat" where
  "inf_times pos x =
     (if x = 0 then NaN else if (0 < x) = pos then PInf else NInf)"

fun fmul :: "pyfloat \<Rightarrow> pyfloat \<Rightarrow> pyfloat" where
  "fmul NaN _ = NaN"
| "fmul _ NaN = NaN"
| "fmul (Fin x) (Fin y) = Fin (x * y)"
| "fmul (Fin x) PInf = inf_times True x"
| "fmul (Fin x) NInf = inf_times False x"
| "fmul PInf (Fin y) = inf_times True y"
| "fmul NInf (Fin y) = inf_times False y"
| "fmul PInf PInf = PInf"
| "fmul NInf NInf = PInf"
| "fmul PInf NInf = NInf"
| "fmul NInf PInf = NInf"

text \<open>
  The exceptions of the module. The three \<^verbatim>\<open>raise ValueError(...)\<close> of the source are
  told apart by their message: \<open>TitleMismatch\<close> is
  \<^verbatim>\<open>"RunStat.merge: title mismatch"\<close>, \<open>IncompatibleObservation\<close> is
  \<^verbatim>\<open>"Counter.add: incompatible observation"\<close>, \<open>BadMergeType\<close> is
  \<^verbatim>\<open>"Counter.merge: bad type"\<close>. The others are raised by the built-ins the
  source calls: \<^verbatim>\<open>float\<close> (TypeError, ValueError, OverflowError) and the conversion
  of an integer operand of a float operation (OverflowError).
\<close>

datatype title = TStr string | TTuple "title list"

datatype obs = OInt int | OFloat pyfloat | OStr string | ONone | OTuple "obs list"

datatype pytype = RunStatT | CounterT | NumStatT

datatype error =
    TitleMismatch title title
  | IncompatibleObservation title obs
  | BadMergeType pytype
  | TypeError
  | ValueError
  | OverflowError

text \<open>
  The outcome of a method call on a receiver of type \<open>'s\<close>: the receiver's state when
  the call returns, or the exception and the state the receiver is left in.
\<close>

datatype 's outcome = Returned 's | Raised error 's

fun state_of :: "'s outcome \<Rightarrow> 's" where
  "state_of (Returned s) = s"
| "state_of (Raised e s) = s"


text \<open>
  A Python integer converts to a float when it is below \<open>2^1024 - 2^970\<close> in absolute
  value (it then rounds to a double; the rounding is not modelled); a larger one raises
  OverflowError ("long int too large to convert to float").
\<close>

definition fits_double :: "int \<Rightarrow> bool" where
  "fits_double i = (\<bar>i\<bar> < 2 ^ 1024 - 2 ^ 970)"

definition int_to_float :: "int \<Rightarrow> error + pyfloat" where
  "int_to_float i = (if fits_double i then Inr (Fin (of_int i)) else Inl OverflowError)"

subsection \<open>The built-in float on text\<close>

text \<open>
  \<^verbatim>\<open>float(s)\<close> on a string: surrounding whitespace is dropped, then an optional sign
  and either \<^verbatim>\<open>inf\<close>, \<^verbatim>\<open>infinity\<close> or \<^verbatim>\<open>nan\<close> in any letter case, or a decimal
  literal (digits with an optional point, at least one digit, and an optional exponent).
  Anything else is a ValueError. A literal at or beyond \<open>2^1024 - 2^970\<close> in
  magnitude is an infinity and one at or below \<open>2^-1075\<close> is zero, as the nearest
  double is; in between the literal's exact value stands for the nearest double.
\<close>

definition is_space :: "char \<Rightarrow> bool" where
  "is_space c = (c \<in> set [CHR '' '', CHR 0x09, CHR 0x0A, CHR 0x0B, CHR 0x0C, CHR 0x0D])"

definition is_digit :: "char \<Rightarrow> bool" where
  "is_digit c = (48 \<le> (of_char c :: nat) \<and> (of_char c :: nat) \<le> 57)"

definition lower :: "char \<Rightarrow> char" where
  "lower c = (if 65 \<le> (of_char c :: nat) \<and> (of_char c :: nat) \<le> 90
              then char_of ((of_char c :: nat) + 32) else c)"

definition strip :: "string \<Rightarrow> string" where
  "strip s = rev (dropWhile is_space (rev (dropWhile is_space s)))"

fun digits_val :: "nat \<Rightarrow> string \<Rightarrow> nat" where
  "digits_val acc [] = acc"
| "digits_val acc (c # cs) = digits_val (10 * acc + ((of_char c :: nat) - 48)) cs"

fun split_sign :: "string \<Rightarrow> bool \<times> string" where
  "split_sign (c # cs) =
     (if c = CHR ''-'' then (False, cs) else if c = CHR ''+'' then (True, cs)
      else (True, c # cs))"
| "split_sign [] = (True, [])"

text \<open>The exponent part: empty, or \<^verbatim>\<open>e\<close> with an optional sign and digits.\<close>

definition parse_exponent :: "string \<Rightarrow> int option" where
  "parse_exponent s =
     (case s of
        [] \<Rightarrow> Some 0
      | c # cs \<Rightarrow>
          if lower c = CHR ''e'' then
            (case split_sign cs of
               (pos, ds) \<Rightarrow>
                 if ds \<noteq> [] \<and> list_all is_digit ds
                 then Some (if pos then int (digits_val 0 ds) else - int (digits_val 0 ds))
                 else None)
          else None)"

definition scale10 :: "real \<Rightarrow> int \<Rightarrow> real" where
  "scale10 x e = (if 0 \<le> e then x * 10 ^ nat e else x / 10 ^ nat (- e))"

definition parse_decimal :: "string \<Rightarrow> real option" where
  "parse_decimal s =
     (let ip = takeWhile is_digit s;
          r1 = dropWhile is_digit s;
          pt = (r1 \<noteq> [] \<and> hd r1 = CHR ''.'');
          fp = (if pt then takeWhile is_digit (tl r1) else []);
          r2 = (if pt then dropWhile is_digit (tl r1) else r1)
      in if ip = [] \<and> fp = [] then None
         else (case parse_exponent r2 of
                 None \<Rightarrow> None
               | Some e \<Rightarrow>
                   Some (scale10 (real (digits_val 0 (ip @ fp))) (e - int (length fp)))))"

definition round_literal :: "real \<Rightarrow> pyfloat" where
  "round_literal x =
     (if 2 ^ 1024 - 2 ^ 970 \<le> \<bar>x\<bar> then (if 0 < x then PInf else NInf)
      else if \<bar>x\<bar> \<le> 1 / 2 ^ 1075 then Fin 0
      else Fin x)"

definition float_of_string :: "string \<Rightarrow> pyfloat option" where
  "float_of_string s =
     (case split_sign (strip s) of
        (pos, r) \<Rightarrow>
          if map lower r = ''inf'' \<or> map lower r = ''infinity''
          then Some (if pos then PInf else NInf)
          else if map lower r = ''nan'' then Some NaN
          else (case parse_decimal r of
                  None \<Rightarrow> None
                | Some x \<Rightarrow> Some (round_literal (if pos then x else - x))))"

text \<open>
  \<^verbatim>\<open>float(v)\<close> on an observation: TypeError on None and on a tuple, ValueError on
  text that is not a number, OverflowError on an integer too large for a double.
\<close>

fun py_float :: "obs \<Rightarrow> error + pyfloat" where
  "py_float (OInt i) = int_to_float i"
| "py_float (OFloat f) = Inr f"
| "py_float (OStr s) =
     (case float_of_string s of None \<Rightarrow> Inl ValueError | Some f \<Rightarrow> Inr f)"
| "py_float ONone = Inl TypeError"
| "py_float (OTuple os) = Inl TypeError"

subsection \<open>RunStat\<close>

record runstat =
  title :: title

record counter = runstat +
  counts :: "(obs \<times> int) list"

record numstat = runstat +
  count :: int
  minV :: pyfloat
  minN :: int
  maxV :: pyfloat
  maxN :: int
  sumV :: pyfloat
  sum2 :: pyfloat
  nanCount :: int
  integer :: bool
  bad :: "counter option"

text \<open>
  The argument of \<^verbatim>\<open>merge\<close>: an object with a title, of one of the three classes
  (a plain \<^verbatim>\<open>RunStat\<close> stands for every accumulator that is neither a Counter nor a
  NumStat). The receiver and the argument are different objects.
\<close>

datatype pyobj = RunStatObj runstat | CounterObj counter | NumStatObj numstat

fun title_of :: "pyobj \<Rightarrow> title" where
  "title_of (RunStatObj r) = title r"
| "title_of (CounterObj c) = title c"
| "title_of (NumStatObj ns) = title ns"

fun type_of :: "pyobj \<Rightarrow> pytype" where
  "type_of (RunStatObj r) = RunStatT"
| "type_of (CounterObj c) = CounterT"
| "type_of (NumStatObj ns) = NumStatT"

text \<open>\<^verbatim>\<open>RunStat.merge\<close>: the title check; None when it returns.\<close>

definition RunStat_merge :: "'a runstat_scheme \<Rightarrow> pyobj \<Rightarrow> error option" where
  "RunStat_merge self rs =
     (if title self \<noteq> title_of rs then Some (TitleMismatch (title self) (title_of rs))
      else None)"

subsection \<open>Counter\<close>

text \<open>
  \<^verbatim>\<open>counts\<close> is a dict: an association list read through \<open>map_of\<close> and written
  with \<open>AList.update\<close>, which replaces the value of a key in place and appends a new
  key. Keys are compared structurally (Python also takes the keys 1 and 1.0 for one
  key, and tells two NaN objects apart). Weights are Python integers.
\<close>

definition dict_get :: "('k \<times> 'v) list \<Rightarrow> 'k \<Rightarrow> 'v \<Rightarrow> 'v" where
  "dict_get d k dflt = (case map_of d k of None \<Rightarrow> dflt | Some v \<Rightarrow> v)"

text \<open>
  The guard of \<^verbatim>\<open>Counter.add\<close>: the title is a tuple and the observation is not a
  tuple of the same length.
\<close>

fun incompatible :: "title \<Rightarrow> obs \<Rightarrow> bool" where
  "incompatible (TTuple ts) (OTuple os) = (length ts \<noteq> length os)"
| "incompatible (TTuple ts) ob = True"
| "incompatible (TStr s) ob = False"

definition Counter_add :: "counter \<Rightarrow> obs \<Rightarrow> int \<Rightarrow> counter outcome" where
  "Counter_add self observation n =
     (if incompatible (title self) observation
      then Raised (IncompatibleObservation (title self) observation) self
      else Returned (self\<lparr>counts :=
             AList.update observation (dict_get (counts self) observation 0 + n)
               (counts self)\<rparr>))"

text \<open>
  The loop \<^verbatim>\<open>for o,n in items: self.add(o,n)\<close> of the constructor and of
  \<^verbatim>\<open>merge\<close>: it stops at the first exception, with the additions made so far.
\<close>

fun Counter_add_items :: "counter \<Rightarrow> (obs \<times> int) list \<Rightarrow> counter outcome" where
  "Counter_add_items self [] = Returned self"
| "Counter_add_items self ((ob, n) # rest) =
     (case Counter_add self ob n of
        Returned s \<Rightarrow> Counter_add_items s rest
      | Raised e s \<Rightarrow> Raised e s)"

definition Counter_new :: "title \<Rightarrow> counter" where
  "Counter_new t = \<lparr>title = t, counts = []\<rparr>"

text \<open>
  \<^verbatim>\<open>Counter(title, values, values_weights)\<close>; an absent argument is the empty list.
\<close>

definition Counter_init :: "title \<Rightarrow> obs list \<Rightarrow> (obs \<times> int) list \<Rightarrow> counter outcome" where
  "Counter_init t vals vals_weights =
     (case Counter_add_items (Counter_new t) (map (\<lambda>v. (v, 1)) vals) of
        Returned s \<Rightarrow> Counter_add_items s vals_weights
      | Raised e s \<Rightarrow> Raised e s)"

definition Counter_num :: "counter \<Rightarrow> int" where
  "Counter_num self = sum_list (map snd (counts self))"

definition Counter_merge :: "counter \<Rightarrow> pyobj \<Rightarrow> counter outcome" where
  "Counter_merge self c =
     (case RunStat_merge self c of
        Some e \<Rightarrow> Raised e self
      | None \<Rightarrow>
          (case c of
             CounterObj other \<Rightarrow> Counter_add_items self (counts other)
           | _ \<Rightarrow> Raised (BadMergeType (type_of c)) self))"

subsection \<open>NumStat\<close>

text \<open>
  \<^verbatim>\<open>"{}(bad)".format(self.title)\<close>: the title as text. A tuple is written with the
  \<^verbatim>\<open>repr\<close> of its members (the escaping of quotes inside a member is not modelled).
\<close>

fun join :: "string \<Rightarrow> string list \<Rightarrow> string" where
  "join sep [] = []"
| "join sep [x] = x"
| "join sep (x # y # ys) = x @ sep @ join sep (y # ys)"

fun title_repr :: "title \<Rightarrow> string" where
  "title_repr (TStr s) = [CHR 0x27] @ s @ [CHR 0x27]"
| "title_repr (TTuple ts) =
     ''('' @ join '', '' (map title_repr ts) @ (if length ts = 1 then '','' else [])
       @ '')''"

fun title_str :: "title \<Rightarrow> string" where
  "title_str (TStr s) = s"
| "title_str (TTuple ts) = title_repr (TTuple ts)"

definition NumStat_new :: "title \<Rightarrow> bool \<Rightarrow> numstat" where
  "NumStat_new t i =
     \<lparr>title = t, count = 0, minV = PInf, minN = 0, maxV = NInf, maxN = 0,
      sumV = Fin 0, sum2 = Fin 0, nanCount = 0, integer = i, bad = None\<rparr>"

text \<open>
  The tie-or-replace rule of \<^verbatim>\<open>add\<close> and \<^verbatim>\<open>merge\<close>, for the minimum and for the
  maximum: a candidate value \<open>v\<close> of weight \<open>n\<close>.
\<close>

definition update_min :: "pyfloat \<Rightarrow> int \<Rightarrow> numstat \<Rightarrow> numstat" where
  "update_min v n self =
     (if feq (minV self) v then self\<lparr>minN := minN self + n\<rparr>
      else if fgt (minV self) v then self\<lparr>minV := v, minN := n\<rparr>
      else self)"

definition update_max :: "pyfloat \<Rightarrow> int \<Rightarrow> numstat \<Rightarrow> numstat" where
  "update_max v n self =
     (if feq (maxV self) v then self\<lparr>maxN := maxN self + n\<rparr>
      else if flt (maxV self) v then self\<lparr>maxV := v, maxN := n\<rparr>
      else self)"

text \<open>
  \<^verbatim>\<open>NumStat.add\<close>. The \<^verbatim>\<open>except\<close> clause catches TypeError and ValueError only.
  In \<^verbatim>\<open>v * n\<close> the integer weight is converted to a float, after \<^verbatim>\<open>count\<close> has
  been updated. \<^verbatim>\<open>sumV\<close> and \<^verbatim>\<open>sum2\<close> start as the integer 0, which equals
  the float 0.
\<close>

definition NumStat_add :: "numstat \<Rightarrow> obs \<Rightarrow> int \<Rightarrow> numstat outcome" where
  "NumStat_add self v n =
     (case py_float v of
        Inl e \<Rightarrow>
          if e = TypeError \<or> e = ValueError then
            (let b = (case bad self of
                        None \<Rightarrow> Counter_new (TStr (title_str (title self) @ ''(bad)''))
                      | Some b \<Rightarrow> b)
             in case Counter_add b v n of
                  Returned b' \<Rightarrow> Returned (self\<lparr>bad := Some b'\<rparr>)
                | Raised e' b' \<Rightarrow> Raised e' (self\<lparr>bad := Some b'\<rparr>))
          else Raised e self
      | Inr f \<Rightarrow>
          if isnan f then Returned (self\<lparr>nanCount := nanCount self + n\<rparr>)
          else
            (let s1 = self\<lparr>count := count self + n\<rparr>
             in case int_to_float n of
                  Inl e \<Rightarrow> Raised e s1
                | Inr w \<Rightarrow>
                    Returned
                      (update_max f n
                        (update_min f n
                          (s1\<lparr>sumV := fadd (sumV s1) (fmul f w),
                              sum2 := fadd (sum2 s1) (fmul (fmul f f) w)\<rparr>)))))"

fun NumStat_add_items :: "numstat \<Rightarrow> (obs \<times> int) list \<Rightarrow> numstat outcome" where
  "NumStat_add_items self [] = Returned self"
| "NumStat_add_items self ((v, n) # rest) =
     (case NumStat_add self v n of
        Returned s \<Rightarrow> NumStat_add_items s rest
      | Raised e s \<Rightarrow> Raised e s)"

definition NumStat_init ::
  "title \<Rightarrow> obs list \<Rightarrow> (obs \<times> int) list \<Rightarrow> bool \<Rightarrow> numstat outcome" where
  "NumStat_init t vals vals_weights i =
     (case NumStat_add_items (NumStat_new t i) (map (\<lambda>v. (v, 1)) vals) of
        Returned s \<Rightarrow> NumStat_add_items s vals_weights
      | Raised e s \<Rightarrow> Raised e s)"

definition NumStat_num :: "numstat \<Rightarrow> int" where
  "NumStat_num self =
     nanCount self + count self + (case bad self of None \<Rightarrow> 0 | Some b \<Rightarrow> Counter_num b)"

text \<open>
  \<^verbatim>\<open>NumStat.merge\<close>. There is no \<^verbatim>\<open>else\<close> branch: an argument that is neither a
  NumStat nor a Counter falls through and the method returns.
\<close>

definition NumStat_merge :: "numstat \<Rightarrow> pyobj \<Rightarrow> numstat outcome" where
  "NumStat_merge self ns =
     (case RunStat_merge self ns of
        Some e \<Rightarrow> Raised e self
      | None \<Rightarrow>
          (case ns of
             NumStatObj other \<Rightarrow>
               (let s1 = self\<lparr>count := count self + count other\<rparr>;
                    s2 = update_min (minV other) (minN other) s1;
                    s3 = update_max (maxV other) (maxN other) s2
                in Returned
                     (s3\<lparr>sumV := fadd (sumV s3) (sumV other),
                         sum2 := fadd (sum2 s3) (sum2 other),
                         nanCount := nanCount s3 + nanCount other\<rparr>))
           | CounterObj c \<Rightarrow> NumStat_add_items self (counts c)
           | RunStatObj r \<Rightarrow> Returned self))"

subsection \<open>Invariants and the vocabulary of the properties\<close>

text \<open>
  The states the methods build. A Counter's keys are distinct (it is a dict) and each
  passed the guard of \<^verbatim>\<open>add\<close>; a NumStat's bad bucket, when it exists, is the Counter
  titled as \<^verbatim>\<open>add\<close> titles it, and its extrema are never NaN. The lemmas below show
  that the constructors establish them and that \<^verbatim>\<open>add\<close> and \<^verbatim>\<open>merge\<close> keep them.
\<close>

definition wf_counter :: "counter \<Rightarrow> bool" where
  "wf_counter c =
     (distinct (map fst (counts c))
      \<and> list_all (\<lambda>k. \<not> incompatible (title c) k) (map fst (counts c)))"

definition bad_title :: "numstat \<Rightarrow> title" where
  "bad_title self = TStr (title_str (title self) @ ''(bad)'')"

definition inv_bad :: "numstat \<Rightarrow> bool" where
  "inv_bad self =
     (case bad self of None \<Rightarrow> True
      | Some b \<Rightarrow> title b = bad_title self \<and> distinct (map fst (counts b)))"

definition inv_extrema :: "numstat \<Rightarrow> bool" where
  "inv_extrema self = (\<not> isnan (minV self) \<and> \<not> isnan (maxV self))"

text \<open>
  An observation is numeric when \<^verbatim>\<open>float\<close> accepts it (the result may be NaN); it
  fits when it is not an integer too large for a double.
\<close>

definition numeric :: "obs \<Rightarrow> bool" where
  "numeric v = (case py_float v of Inr f \<Rightarrow> True | Inl e \<Rightarrow> False)"

fun obs_fits :: "obs \<Rightarrow> bool" where
  "obs_fits (OInt i) = fits_double i"
| "obs_fits ob = True"

definition entry_fits :: "obs \<times> int \<Rightarrow> bool" where
  "entry_fits e = (obs_fits (fst e) \<and> fits_double (snd e))"

text \<open>The weight a dict holds for a key, 0 when the key is absent; of the bad bucket.\<close>

definition weight_of :: "(obs \<times> int) list \<Rightarrow> obs \<Rightarrow> int" where
  "weight_of d k = (case map_of d k of None \<Rightarrow> 0 | Some w \<Rightarrow> w)"

definition bad_counts :: "numstat \<Rightarrow> (obs \<times> int) list" where
  "bad_counts self = (case bad self of None \<Rightarrow> [] | Some b \<Rightarrow> counts b)"

text \<open>
  What \<^verbatim>\<open>add\<close> does with an observation that \<^verbatim>\<open>float\<close> turned into \<open>f\<close>, when
  the weight converts: the NaN branch or the update of count, sums and extrema.
\<close>

definition add_float :: "pyfloat \<Rightarrow> int \<Rightarrow> numstat \<Rightarrow> numstat" where
  "add_float f n self =
     (if isnan f then self\<lparr>nanCount := nanCount self + n\<rparr>
      else update_max f n
             (update_min f n
               (self\<lparr>count := count self + n,
                     sumV := fadd (sumV self) (fmul f (Fin (of_int n))),
                     sum2 := fadd (sum2 self) (fmul (fmul f f) (Fin (of_int n)))\<rparr>)))"

text \<open>
  The entries of a dict that \<^verbatim>\<open>float\<close> accepts, each with the float of its key, in
  the order of the dict; and a run of \<open>add_float\<close> over such entries.
\<close>

fun coerced :: "(obs \<times> int) list \<Rightarrow> (pyfloat \<times> int) list" where
  "coerced [] = []"
| "coerced ((k, n) # xs) =
     (case py_float k of Inr f \<Rightarrow> (f, n) # coerced xs | Inl e \<Rightarrow> coerced xs)"

fun add_floats :: "numstat \<Rightarrow> (pyfloat \<times> int) list \<Rightarrow> numstat" where
  "add_floats self [] = self"
| "add_floats self ((f, n) # fs) = add_floats (add_float f n self) fs"

text \<open>
  The tie-or-replace rule on pairs of a value and its multiplicity, as \<open>update_min\<close>
  and \<open>update_max\<close> apply it to the fields, and the state \<^verbatim>\<open>a.merge(b)\<close> leaves
  in \<open>a\<close>.
\<close>

definition tie_min :: "pyfloat \<times> int \<Rightarrow> pyfloat \<times> int \<Rightarrow> pyfloat \<times> int" where
  "tie_min p q =
     (if feq (fst p) (fst q) then (fst p, snd p + snd q)
      else if fgt (fst p) (fst q) then q else p)"

definition tie_max :: "pyfloat \<times> int \<Rightarrow> pyfloat \<times> int \<Rightarrow> pyfloat \<times> int" where
  "tie_max p q =
     (if feq (fst p) (fst q) then (fst p, snd p + snd q)
      else if flt (fst p) (fst q) then q else p)"

definition merged :: "numstat \<Rightarrow> numstat \<Rightarrow> numstat" where
  "merged a b = state_of (NumStat_merge a (NumStatObj b))"

section \<open>Properties\<close>

subsection \<open>Unfolding the methods on concrete inputs\<close>

lemmas numstat_eval =
  NumStat_init_def NumStat_add_def NumStat_new_def int_to_float_def fits_double_def
  update_min_def
  update_max_def fgt_def NumStat_num_def Counter_num_def Counter_add_def Counter_new_def
  dict_get_def

lemmas parse_eval =
  float_of_string_def strip_def is_space_def parse_decimal_def is_digit_def
  parse_exponent_def scale10_def lower_def round_literal_def

subsection \<open>The title check\<close>

lemma RunStat_merge_eq [simp]:
  "title self = title_of x \<Longrightarrow> RunStat_merge self x = None"
  by (simp add: RunStat_merge_def)

lemma RunStat_merge_neq [simp]:
  "title self \<noteq> title_of x \<Longrightarrow>
     RunStat_merge self x = Some (TitleMismatch (title self) (title_of x))"
  by (simp add: RunStat_merge_def)

subsection \<open>Selectors through the extremum updates\<close>

lemma update_min_sel [simp]:
  "title (update_min v n s) = title s" "count (update_min v n s) = count s"
  "maxV (update_min v n s) = maxV s" "maxN (update_min v n s) = maxN s"
  "sumV (update_min v n s) = sumV s" "sum2 (update_min v n s) = sum2 s"
  "nanCount (update_min v n s) = nanCount s" "integer (update_min v n s) = integer s"
  "bad (update_min v n s) = bad s"
  by (simp_all add: update_min_def)

lemma update_max_sel [simp]:
  "title (update_max v n s) = title s" "count (update_max v n s) = count s"
  "minV (update_max v n s) = minV s" "minN (update_max v n s) = minN s"
  "sumV (update_max v n s) = sumV s" "sum2 (update_max v n s) = sum2 s"
  "nanCount (update_max v n s) = nanCount s" "integer (update_max v n s) = integer s"
  "bad (update_max v n s) = bad s"
  by (simp_all add: update_max_def)

lemma add_float_sel [simp]:
  "title (add_float f n s) = title s" "integer (add_float f n s) = integer s"
  "bad (add_float f n s) = bad s"
  by (simp_all add: add_float_def)

subsection \<open>The outcomes of NumStat.add\<close>

text \<open>
  Only an integer too large for a double makes \<^verbatim>\<open>float\<close> raise OverflowError.
\<close>

lemma py_float_overflow_iff:
  "py_float v = Inl OverflowError \<longleftrightarrow> \<not> obs_fits v"
  by (cases v) (auto simp: int_to_float_def split: option.splits)

text \<open>
  An observation that \<^verbatim>\<open>float\<close> accepts, with a weight that converts: the call
  returns the state that \<open>add_float\<close> describes.
\<close>

lemma NumStat_add_numeric:
  assumes "py_float v = Inr f" "fits_double n"
  shows "NumStat_add self v n = Returned (add_float f n self)"
  using assms by (simp add: NumStat_add_def add_float_def int_to_float_def)

text \<open>
  An observation that \<^verbatim>\<open>float\<close> rejects with TypeError or ValueError: it is
  counted in the bad bucket, which is created when absent.
\<close>

lemma NumStat_add_bad:
  assumes "py_float v = Inl e" "e \<noteq> OverflowError" "inv_bad self"
  shows "NumStat_add self v n =
           Returned (self\<lparr>bad := Some \<lparr>title = bad_title self,
              counts = AList.update v (weight_of (bad_counts self) v + n) (bad_counts self)\<rparr>\<rparr>)"
proof -
  have e: "e = TypeError \<or> e = ValueError"
    using assms(1,2)
    by (cases v) (auto simp: int_to_float_def split: if_splits option.splits)
  show ?thesis
  proof (cases "bad self")
    case None
    then show ?thesis
      using assms(1) e
      by (auto simp: NumStat_add_def Counter_new_def Counter_add_def bad_title_def
          bad_counts_def weight_of_def dict_get_def)
  next
    case (Some b)
    then have "title b = bad_title self" using assms(3) by (simp add: inv_bad_def)
    then show ?thesis
      using assms(1) e Some
      by (auto simp: NumStat_add_def Counter_add_def bad_title_def
          bad_counts_def weight_of_def dict_get_def)
  qed
qed

text \<open>The bad bucket keeps its title and its distinct keys.\<close>

lemma inv_bad_new: "inv_bad (NumStat_new t i)"
  by (simp add: inv_bad_def NumStat_new_def)

lemma inv_bad_add_float [simp]: "inv_bad (add_float f n s) = inv_bad s"
  by (simp add: inv_bad_def bad_title_def cong: option.case_cong)

subsection \<open>Weights of a dict\<close>

lemma weight_of_alt: "weight_of d k = (case map_of d k of None \<Rightarrow> 0 | Some w \<Rightarrow> w)"
  by (simp add: weight_of_def)

lemma weight_of_Cons [simp]:
  "weight_of ((v, n) # xs) k = (if k = v then n else weight_of xs k)"
  by (simp add: weight_of_alt)

lemma weight_of_absent: "k \<notin> fst ` set xs \<Longrightarrow> weight_of xs k = 0"
  by (simp add: weight_of_alt map_of_eq_None_iff [THEN iffD2])

subsection \<open>What a run of adds does to the bad bucket\<close>

lemma NumStat_add_effect:
  assumes "inv_bad s" "obs_fits v" "fits_double n"
  shows "\<exists>s'. NumStat_add s v n = Returned s' \<and> inv_bad s' \<and> title s' = title s
     \<and> map_of (bad_counts s') =
         (if numeric v then map_of (bad_counts s)
          else (map_of (bad_counts s))(v \<mapsto> weight_of (bad_counts s) v + n))
     \<and> count s' + nanCount s' = count s + nanCount s + (if numeric v then n else 0)"
proof (cases "py_float v")
  case (Inl e)
  then have ne: "e \<noteq> OverflowError"
    using assms(2) py_float_overflow_iff [of v] by auto
  have nn: "\<not> numeric v" using Inl by (simp add: numeric_def)
  show ?thesis
    using NumStat_add_bad [OF Inl ne assms(1), of n] assms(1) nn
    by (auto simp: inv_bad_def bad_title_def distinct_update bad_counts_def update_conv'
        split: option.splits)
next
  case (Inr f)
  have nu: "numeric v" using Inr by (simp add: numeric_def)
  have "count (add_float f n s) + nanCount (add_float f n s) = count s + nanCount s + n"
    by (simp add: add_float_def)
  then show ?thesis
    using NumStat_add_numeric [OF Inr assms(3), of s] assms(1) nu
    by (simp add: bad_counts_def)
qed

lemma NumStat_add_items_effect:
  assumes "inv_bad s" "list_all entry_fits xs" "distinct (map fst xs)"
  shows "\<exists>s'. NumStat_add_items s xs = Returned s' \<and> inv_bad s' \<and> title s' = title s
     \<and> (\<forall>k. map_of (bad_counts s') k =
           (if \<not> numeric k \<and> k \<in> fst ` set xs
            then Some (weight_of (bad_counts s) k + weight_of xs k)
            else map_of (bad_counts s) k))
     \<and> count s' + nanCount s' =
         count s + nanCount s + sum_list (map snd (filter (\<lambda>e. numeric (fst e)) xs))"
  using assms
proof (induction xs arbitrary: s)
  case Nil
  then show ?case by simp
next
  case (Cons x xs)
  obtain v n where x: "x = (v, n)" by (cases x)
  have fits: "obs_fits v" "fits_double n" and rest: "list_all entry_fits xs"
    using Cons.prems(2) by (simp_all add: x) (simp_all add: entry_fits_def)
  have dist: "v \<notin> fst ` set xs" "distinct (map fst xs)"
    using Cons.prems(3) by (simp_all add: x)
  obtain s1 where s1: "NumStat_add s v n = Returned s1" "inv_bad s1" "title s1 = title s"
    "map_of (bad_counts s1) =
         (if numeric v then map_of (bad_counts s)
          else (map_of (bad_counts s))(v \<mapsto> weight_of (bad_counts s) v + n))"
    "count s1 + nanCount s1 = count s + nanCount s + (if numeric v then n else 0)"
    using NumStat_add_effect [OF Cons.prems(1) fits] by blast
  obtain s' where s': "NumStat_add_items s1 xs = Returned s'" "inv_bad s'" "title s' = title s1"
    "\<forall>k. map_of (bad_counts s') k =
           (if \<not> numeric k \<and> k \<in> fst ` set xs
            then Some (weight_of (bad_counts s1) k + weight_of xs k)
            else map_of (bad_counts s1) k)"
    "count s' + nanCount s' =
         count s1 + nanCount s1 + sum_list (map snd (filter (\<lambda>e. numeric (fst e)) xs))"
    using Cons.IH [OF s1(2) rest dist(2)] by blast
  have w1: "\<And>k. weight_of (bad_counts s1) k =
      (if \<not> numeric v \<and> k = v then weight_of (bad_counts s) v + n
       else weight_of (bad_counts s) k)"
    by (simp add: weight_of_alt s1(4))
  have "NumStat_add_items s (x # xs) = Returned s'"
    by (simp add: x s1(1) s'(1))
  moreover have "title s' = title s" by (simp add: s'(3) s1(3))
  moreover have "\<forall>k. map_of (bad_counts s') k =
           (if \<not> numeric k \<and> k \<in> fst ` set (x # xs)
            then Some (weight_of (bad_counts s) k + weight_of (x # xs) k)
            else map_of (bad_counts s) k)"
    using dist(1) by (auto simp: x s'(4) w1 s1(4) weight_of_absent)
  moreover have "count s' + nanCount s' =
         count s + nanCount s + sum_list (map snd (filter (\<lambda>e. numeric (fst e)) (x # xs)))"
    by (simp add: x s'(5) s1(5))
  ultimately show ?case using s'(2) by blast
qed


subsection \<open>What a run of adds does to the numeric fields\<close>

text \<open>The bad bucket and the numeric fields do not touch each other.\<close>

lemma add_float_bad_update:
  "add_float f n (s\<lparr>bad := b\<rparr>) = (add_float f n s)\<lparr>bad := b\<rparr>"
  by (simp add: add_float_def update_min_def update_max_def)

lemma add_floats_bad_update:
  "add_floats (s\<lparr>bad := b\<rparr>) fs = (add_floats s fs)\<lparr>bad := b\<rparr>"
  by (induction fs arbitrary: s) (auto simp: add_float_bad_update)

lemma add_floats_bad [simp]: "bad (add_floats s fs) = bad s"
  by (induction fs arbitrary: s) auto

text \<open>
  The counters after a run of \<open>add_float\<close>: the weights of the NaN entries go to
  nanCount, the others to count.
\<close>

lemma add_floats_count:
  "count (add_floats s fs) =
     count s + sum_list (map snd (filter (\<lambda>e. \<not> isnan (fst e)) fs))"
  by (induction fs arbitrary: s) (auto simp: add_float_def)

lemma add_floats_nanCount:
  "nanCount (add_floats s fs) =
     nanCount s + sum_list (map snd (filter (\<lambda>e. isnan (fst e)) fs))"
  by (induction fs arbitrary: s) (auto simp: add_float_def)

text \<open>
  A run of adds whose entries all fit: with the bad bucket set aside, the state is the
  one a run of \<open>add_float\<close> over the coerced entries gives.
\<close>

lemma NumStat_add_items_stats:
  assumes "inv_bad s" "list_all entry_fits xs"
  shows "\<exists>s'. NumStat_add_items s xs = Returned s'
     \<and> s'\<lparr>bad := bad s\<rparr> = add_floats s (coerced xs)"
  using assms
proof (induction xs arbitrary: s)
  case Nil
  then show ?case by simp
next
  case (Cons x xs)
  obtain v n where x: "x = (v, n)" by (cases x)
  have fits: "obs_fits v" "fits_double n" and rest: "list_all entry_fits xs"
    using Cons.prems(2) by (simp_all add: x) (simp_all add: entry_fits_def)
  show ?case
  proof (cases "py_float v")
    case (Inr f)
    let ?s1 = "add_float f n s"
    have s1: "NumStat_add s v n = Returned ?s1"
      by (rule NumStat_add_numeric [OF Inr fits(2)])
    have "inv_bad ?s1" using Cons.prems(1) by simp
    then obtain s' where s': "NumStat_add_items ?s1 xs = Returned s'"
      "s'\<lparr>bad := bad ?s1\<rparr> = add_floats ?s1 (coerced xs)"
      using Cons.IH [OF _ rest] by blast
    show ?thesis
      using s' by (simp add: x s1 Inr)
  next
    case (Inl e)
    have ne: "e \<noteq> OverflowError"
      using Inl fits(1) py_float_overflow_iff [of v] by auto
    obtain s1 b where s1: "NumStat_add s v n = Returned s1" "inv_bad s1"
      "s1 = s\<lparr>bad := b\<rparr>"
      using NumStat_add_bad [OF Inl ne Cons.prems(1), of n]
        NumStat_add_effect [OF Cons.prems(1) fits] by auto
    obtain s' where s': "NumStat_add_items s1 xs = Returned s'"
      "s'\<lparr>bad := bad s1\<rparr> = add_floats s1 (coerced xs)"
      using Cons.IH [OF s1(2) rest] by blast
    have "s'\<lparr>bad := bad s1\<rparr> = (add_floats s (coerced xs))\<lparr>bad := b\<rparr>"
      using s'(2) by (simp add: s1(3) add_floats_bad_update)
    then have "(s'\<lparr>bad := bad s1\<rparr>)\<lparr>bad := bad s\<rparr> =
        ((add_floats s (coerced xs))\<lparr>bad := b\<rparr>)\<lparr>bad := bad s\<rparr>"
      by simp
    then have "s'\<lparr>bad := bad s\<rparr> = add_floats s (coerced xs)"
      using add_floats_bad [of s "coerced xs"] by simp
    then show ?thesis
      by (simp add: x s1(1) s'(1) Inl)
  qed
qed

subsection \<open>Counter.add and Counter.merge on well-formed Counters\<close>

text \<open>
  A dict read through its keys and weights: two dicts with the same keys and the same
  weights are the same mapping.
\<close>

lemma map_of_weight:
  "map_of d k = (if k \<in> fst ` set d then Some (weight_of d k) else None)"
  by (cases "map_of d k")
     (auto simp: weight_of_alt map_of_eq_None_iff dest: map_of_SomeD intro: rev_image_eqI)

lemma counts_eqI:
  assumes "fst ` set d = fst ` set d'" "\<forall>k. weight_of d k = weight_of d' k"
  shows "map_of d = map_of d'"
  by (rule ext) (simp add: map_of_weight assms)

lemma weight_of_update:
  "weight_of (AList.update k v d) k' = (if k' = k then v else weight_of d k')"
  by (simp add: weight_of_alt update_conv')

lemma keys_update: "fst ` set (AList.update k v d) = insert k (fst ` set d)"
  using dom_update [of k v d] by (simp add: dom_map_of_conv_image_fst)

lemma wf_counter_new: "wf_counter (Counter_new t)"
  by (simp add: wf_counter_def Counter_new_def)

lemma Counter_add_compatible:
  "\<not> incompatible (title s) k \<Longrightarrow>
     Counter_add s k n =
       Returned (s\<lparr>counts := AList.update k (weight_of (counts s) k + n) (counts s)\<rparr>)"
  by (simp add: Counter_add_def weight_of_def dict_get_def)

lemma wf_counter_add:
  assumes "wf_counter s" "Counter_add s k n = Returned s'"
  shows "wf_counter s'"
proof -
  have ok: "\<not> incompatible (title s) k"
    and s': "s' = s\<lparr>counts := AList.update k (weight_of (counts s) k + n) (counts s)\<rparr>"
    using assms(2) by (auto simp: Counter_add_def weight_of_def dict_get_def split: if_splits)
  have keys: "set (map fst (counts s')) = insert k (set (map fst (counts s)))"
    using keys_update [of k _ "counts s"] by (simp add: s')
  have "distinct (map fst (counts s'))"
    using assms(1) by (simp add: s' wf_counter_def distinct_update)
  moreover have "list_all (\<lambda>k. \<not> incompatible (title s') k) (map fst (counts s'))"
    using assms(1) ok unfolding list_all_iff keys by (simp add: wf_counter_def list_all_iff s')
  ultimately show ?thesis by (simp add: wf_counter_def)
qed

text \<open>
  The loop over the entries of a dict whose keys all pass the guard: it returns, the
  keys are joined and the weights are added.
\<close>

lemma Counter_add_items_effect:
  assumes "list_all (\<lambda>k. \<not> incompatible (title s) k) (map fst xs)"
    "distinct (map fst xs)" "distinct (map fst (counts s))"
  shows "\<exists>s'. Counter_add_items s xs = Returned s' \<and> title s' = title s
     \<and> distinct (map fst (counts s'))
     \<and> fst ` set (counts s') = fst ` set (counts s) \<union> fst ` set xs
     \<and> (\<forall>k. weight_of (counts s') k = weight_of (counts s) k + weight_of xs k)"
  using assms
proof (induction xs arbitrary: s)
  case Nil
  then show ?case by (simp add: weight_of_alt)
next
  case (Cons x xs)
  obtain v n where x: "x = (v, n)" by (cases x)
  let ?s1 = "s\<lparr>counts := AList.update v (weight_of (counts s) v + n) (counts s)\<rparr>"
  have ok: "\<not> incompatible (title s) v"
    and rest: "list_all (\<lambda>k. \<not> incompatible (title ?s1) k) (map fst xs)"
    using Cons.prems(1) by (simp_all add: x)
  have dist: "v \<notin> fst ` set xs" "distinct (map fst xs)"
    using Cons.prems(2) by (simp_all add: x)
  have d1: "distinct (map fst (counts ?s1))"
    using Cons.prems(3) by (simp add: distinct_update)
  obtain s' where s': "Counter_add_items ?s1 xs = Returned s'" "title s' = title ?s1"
    "distinct (map fst (counts s'))"
    "fst ` set (counts s') = fst ` set (counts ?s1) \<union> fst ` set xs"
    "\<forall>k. weight_of (counts s') k = weight_of (counts ?s1) k + weight_of xs k"
    using Cons.IH [OF rest dist(2) d1] by blast
  have "Counter_add_items s (x # xs) = Returned s'"
    by (simp add: x Counter_add_compatible [OF ok] s'(1))
  moreover have "fst ` set (counts s') = fst ` set (counts s) \<union> fst ` set (x # xs)"
    by (simp add: s'(4) keys_update x)
  moreover have "\<forall>k. weight_of (counts s') k = weight_of (counts s) k + weight_of (x # xs) k"
    using dist(1) by (simp add: s'(5) weight_of_update x weight_of_absent)
  ultimately show ?case using s'(2,3) by auto
qed

lemma wf_counter_add_items:
  assumes "wf_counter s" "Counter_add_items s xs = Returned s'"
  shows "wf_counter s'"
  using assms
proof (induction xs arbitrary: s)
  case Nil
  then show ?case by simp
next
  case (Cons x xs)
  obtain v n where x: "x = (v, n)" by (cases x)
  show ?case
  proof (cases "Counter_add s v n")
    case (Returned s1)
    then show ?thesis
      using Cons.IH [of s1] Cons.prems wf_counter_add [of s v n s1] by (simp add: x)
  next
    case (Raised e s1)
    then show ?thesis using Cons.prems(2) by (simp add: x)
  qed
qed

lemma wf_counter_init:
  "Counter_init t vals vals_weights = Returned c \<Longrightarrow> wf_counter c"
  by (auto simp: Counter_init_def split: outcome.splits
      dest!: wf_counter_add_items [rotated] intro: wf_counter_new)

text \<open>Merging well-formed Counters of one title: the result and its invariant.\<close>

lemma Counter_merge_effect:
  assumes "wf_counter a" "wf_counter b" "title a = title b"
  shows "\<exists>m. Counter_merge a (CounterObj b) = Returned m \<and> wf_counter m
     \<and> title m = title a
     \<and> fst ` set (counts m) = fst ` set (counts a) \<union> fst ` set (counts b)
     \<and> (\<forall>k. weight_of (counts m) k = weight_of (counts a) k + weight_of (counts b) k)"
proof -
  have compat: "list_all (\<lambda>k. \<not> incompatible (title a) k) (map fst (counts b))"
    using assms(2,3) by (simp add: wf_counter_def)
  obtain m where m: "Counter_add_items a (counts b) = Returned m" "title m = title a"
    "distinct (map fst (counts m))"
    "fst ` set (counts m) = fst ` set (counts a) \<union> fst ` set (counts b)"
    "\<forall>k. weight_of (counts m) k = weight_of (counts a) k + weight_of (counts b) k"
    using Counter_add_items_effect [OF compat] assms(1,2) by (auto simp: wf_counter_def)
  have "wf_counter m"
    using assms m(2,3,4) by (auto simp: wf_counter_def list_all_iff)
  moreover have "Counter_merge a (CounterObj b) = Returned m"
    using assms(3) m(1) by (simp add: Counter_merge_def)
  ultimately show ?thesis using m(2,4,5) by blast
qed

subsection \<open>Float sums\<close>

lemma fadd_assoc: "fadd (fadd a b) c = fadd a (fadd b c)"
  by (cases a; cases b; cases c) simp_all

lemma fadd_zero [simp]: "fadd a (Fin 0) = a"
  by (cases a) simp_all

subsection \<open>The tie-or-replace rule is associative\<close>

lemma tie_min_assoc:
  assumes "\<not> isnan (fst q)" "\<not> isnan (fst r)"
  shows "tie_min p (tie_min q r) = tie_min (tie_min p q) r"
  using assms
  by (cases "fst p"; cases "fst q"; cases "fst r") (auto simp: tie_min_def fgt_def)

lemma tie_max_assoc:
  assumes "\<not> isnan (fst q)" "\<not> isnan (fst r)"
  shows "tie_max p (tie_max q r) = tie_max (tie_max p q) r"
  using assms
  by (cases "fst p"; cases "fst q"; cases "fst r") (auto simp: tie_max_def)

lemma update_min_pair:
  "(minV (update_min v n s), minN (update_min v n s)) = tie_min (minV s, minN s) (v, n)"
  by (simp add: update_min_def tie_min_def)

lemma update_max_pair:
  "(maxV (update_max v n s), maxN (update_max v n s)) = tie_max (maxV s, maxN s) (v, n)"
  by (simp add: update_max_def tie_max_def)

subsection \<open>NumStat.merge against NumStat.add\<close>

text \<open>The fields after add, on an observation that coerced.\<close>

lemma add_float_fields:
  "count (add_float f n s) = (if isnan f then count s else count s + n)"
  "nanCount (add_float f n s) = (if isnan f then nanCount s + n else nanCount s)"
  "sumV (add_float f n s) =
     (if isnan f then sumV s else fadd (sumV s) (fmul f (Fin (of_int n))))"
  "sum2 (add_float f n s) =
     (if isnan f then sum2 s else fadd (sum2 s) (fmul (fmul f f) (Fin (of_int n))))"
  "(minV (add_float f n s), minN (add_float f n s)) =
     (if isnan f then (minV s, minN s) else tie_min (minV s, minN s) (f, n))"
  "(maxV (add_float f n s), maxN (add_float f n s)) =
     (if isnan f then (maxV s, maxN s) else tie_max (maxV s, maxN s) (f, n))"
  "numstat.more (add_float f n s) = numstat.more s"
  by (simp_all add: add_float_def update_min_pair update_max_pair)

text \<open>The fields after merging a NumStat of the same title.\<close>

lemma NumStat_merge_numstat:
  assumes "title a = title b"
  shows "NumStat_merge a (NumStatObj b) = Returned (merged a b)"
  using assms by (simp add: merged_def NumStat_merge_def Let_def)

lemma merged_fields:
  assumes "title a = title b"
  shows "title (merged a b) = title a" "integer (merged a b) = integer a"
    "bad (merged a b) = bad a" "numstat.more (merged a b) = numstat.more a"
    "count (merged a b) = count a + count b"
    "nanCount (merged a b) = nanCount a + nanCount b"
    "sumV (merged a b) = fadd (sumV a) (sumV b)"
    "sum2 (merged a b) = fadd (sum2 a) (sum2 b)"
    "(minV (merged a b), minN (merged a b)) = tie_min (minV a, minN a) (minV b, minN b)"
    "(maxV (merged a b), maxN (merged a b)) = tie_max (maxV a, maxN a) (maxV b, maxN b)"
  using assms
  by (simp_all add: merged_def NumStat_merge_def Let_def update_min_pair update_max_pair)

text \<open>The extrema are never NaN.\<close>

lemma inv_extrema_new: "inv_extrema (NumStat_new t i)"
  by (simp add: inv_extrema_def NumStat_new_def)

lemma inv_extrema_add_float: "inv_extrema s \<Longrightarrow> inv_extrema (add_float f n s)"
  by (cases "isnan f")
     (simp_all add: inv_extrema_def add_float_def update_min_def update_max_def)

text \<open>
  Merging then adding is adding then merging: the step that makes merge exact.
\<close>

lemma merged_add_float:
  assumes t: "title a = title b" and inv: "inv_extrema b"
  shows "merged a (add_float f n b) = add_float f n (merged a b)"
proof -
  let ?b = "add_float f n b"
  have t': "title a = title ?b" using t by simp
  have nb: "\<not> isnan (minV b)" "\<not> isnan (maxV b)" using inv by (simp_all add: inv_extrema_def)
  have minp: "(minV (merged a ?b), minN (merged a ?b)) =
      (minV (add_float f n (merged a b)), minN (add_float f n (merged a b)))"
    using nb(1)
    by (simp add: merged_fields(9) [OF t'] merged_fields(9) [OF t] add_float_fields(5)
        tie_min_assoc)
  have maxp: "(maxV (merged a ?b), maxN (merged a ?b)) =
      (maxV (add_float f n (merged a b)), maxN (add_float f n (merged a b)))"
    using nb(2)
    by (simp add: merged_fields(10) [OF t'] merged_fields(10) [OF t] add_float_fields(6)
        tie_max_assoc)
  show ?thesis
  proof (rule numstat.equality)
    show "minV (merged a ?b) = minV (add_float f n (merged a b))"
      and "minN (merged a ?b) = minN (add_float f n (merged a b))"
      using minp by simp_all
    show "maxV (merged a ?b) = maxV (add_float f n (merged a b))"
      and "maxN (merged a ?b) = maxN (add_float f n (merged a b))"
      using maxp by simp_all
  qed (simp_all add: merged_fields [OF t'] merged_fields [OF t] add_float_fields fadd_assoc)
qed

text \<open>Merging a fresh NumStat changes nothing.\<close>

lemma merged_new:
  assumes "title a = t"
  shows "merged a (NumStat_new t i) = a"
  using assms
  by (simp add: merged_def NumStat_merge_def RunStat_merge_def NumStat_new_def Let_def
      update_min_def update_max_def fgt_def)
     (cases "minV a"; cases "maxV a"; simp)

text \<open>A run of adds over two lists is the run over the first, then over the second.\<close>

lemma NumStat_add_items_append:
  "NumStat_add_items s (xs @ ys) =
     (case NumStat_add_items s xs of
        Returned s' \<Rightarrow> NumStat_add_items s' ys
      | Raised e s' \<Rightarrow> Raised e s')"
  by (induction xs arbitrary: s) (auto split: outcome.splits)

text \<open>
  Adding a run of numeric observations to \<open>b\<close> and merging the result into \<open>a\<close> is
  adding the same run to \<open>a\<close> merged with \<open>b\<close>.
\<close>

lemma merged_add_items:
  assumes "title a = title b" "inv_extrema b"
    "list_all (\<lambda>e. numeric (fst e) \<and> fits_double (snd e)) xs"
  shows "\<exists>b'. NumStat_add_items b xs = Returned b' \<and> title b' = title b
     \<and> NumStat_add_items (merged a b) xs = Returned (merged a b')"
  using assms
proof (induction xs arbitrary: b)
  case Nil
  then show ?case by simp
next
  case (Cons x xs)
  obtain v n where x: "x = (v, n)" by (cases x)
  obtain f where f: "py_float v = Inr f"
    using Cons.prems(3) by (auto simp: x numeric_def split: sum.splits)
  have n: "fits_double n" and rest: "list_all (\<lambda>e. numeric (fst e) \<and> fits_double (snd e)) xs"
    using Cons.prems(3) by (simp_all add: x)
  let ?b1 = "add_float f n b"
  have t1: "title a = title ?b1" using Cons.prems(1) by simp
  have i1: "inv_extrema ?b1" using Cons.prems(2) by (rule inv_extrema_add_float)
  obtain b' where b': "NumStat_add_items ?b1 xs = Returned b'" "title b' = title ?b1"
    "NumStat_add_items (merged a ?b1) xs = Returned (merged a b')"
    using Cons.IH [OF t1 i1 rest] by blast
  have "NumStat_add_items b (x # xs) = Returned b'"
    by (simp add: x NumStat_add_numeric [OF f n] b'(1))
  moreover have "NumStat_add_items (merged a b) (x # xs) = Returned (merged a b')"
    by (simp add: x NumStat_add_numeric [OF f n]
        merged_add_float [OF Cons.prems(1,2), symmetric] b'(3))
  ultimately show ?case using b'(2) by simp
qed

lemma default_weights_numeric:
  "list_all numeric S \<Longrightarrow>
     list_all (\<lambda>e. numeric (fst e) \<and> fits_double (snd e)) (map (\<lambda>v. (v, 1)) S)"
  by (induction S) (simp_all add: fits_double_def)

subsection \<open>NumStat.merge is exact\<close>

text \<open>
  C1. For any two sequences \<open>S1\<close> and \<open>S2\<close> of observations that \<^verbatim>\<open>float\<close> accepts
  (numbers, numeric text, infinities and NaN), each added with the default weight 1:
  the NumStat built from \<open>S1\<close>, the one built from \<open>S2\<close> under the same title and the
  one built from \<open>S1\<close> followed by \<open>S2\<close> all exist, and merging the second into the
  first returns exactly the third: the same count, sumV, sum2, minV, minN, maxV, maxN
  and nanCount (sums being exact in this model), the empty sequences included.
\<close>

theorem C1_merge_exact:
  assumes "list_all numeric S1" "list_all numeric S2"
  shows "\<exists>a b c. NumStat_init t S1 [] i = Returned a
     \<and> NumStat_init t S2 [] j = Returned b
     \<and> NumStat_init t (S1 @ S2) [] i = Returned c
     \<and> NumStat_merge a (NumStatObj b) = Returned c"
proof -
  let ?w = "map (\<lambda>v. (v, 1 :: int))"
  let ?new = "NumStat_new t"
  have t0: "title (?new i) = title (?new i)" by simp
  obtain a where a: "NumStat_add_items (?new i) (?w S1) = Returned a" "title a = title (?new i)"
    using merged_add_items [OF t0 inv_extrema_new default_weights_numeric [OF assms(1)]]
    by blast
  have ta: "title a = title (?new j)" using a(2) by (simp add: NumStat_new_def)
  obtain b where b: "NumStat_add_items (?new j) (?w S2) = Returned b" "title b = title (?new j)"
    "NumStat_add_items (merged a (?new j)) (?w S2) = Returned (merged a b)"
    using merged_add_items [OF ta inv_extrema_new default_weights_numeric [OF assms(2)]]
    by blast
  have "title a = t" using a(2) by (simp add: NumStat_new_def)
  then have "merged a (?new j) = a" by (rule merged_new)
  then have ab: "NumStat_add_items a (?w S2) = Returned (merged a b)"
    using b(3) by simp
  have "NumStat_init t S1 [] i = Returned a"
    by (simp add: NumStat_init_def a(1))
  moreover have "NumStat_init t S2 [] j = Returned b"
    by (simp add: NumStat_init_def b(1))
  moreover have "NumStat_init t (S1 @ S2) [] i = Returned (merged a b)"
    by (simp add: NumStat_init_def NumStat_add_items_append a(1) ab)
  moreover have "NumStat_merge a (NumStatObj b) = Returned (merged a b)"
    using ta b(2) by (simp add: NumStat_merge_numstat)
  ultimately show ?thesis by blast
qed

theorem C1_merge_exact_witness:
  "list_all numeric [OInt 1, OInt 0, OFloat NaN, OInt 3]
   \<and> list_all numeric [OInt 0, OStr ''3'', OFloat PInf]
   \<and> NumStat_merge
       \<lparr>title = TStr ''foo'', count = 3, minV = Fin 0, minN = 1, maxV = Fin 3, maxN = 1,
        sumV = Fin 4, sum2 = Fin 10, nanCount = 1, integer = False, bad = None\<rparr>
       (NumStatObj
         \<lparr>title = TStr ''foo'', count = 3, minV = Fin 0, minN = 1, maxV = PInf, maxN = 1,
          sumV = PInf, sum2 = PInf, nanCount = 0, integer = True, bad = None\<rparr>) =
     Returned
       \<lparr>title = TStr ''foo'', count = 6, minV = Fin 0, minN = 2, maxV = PInf, maxN = 1,
        sumV = PInf, sum2 = PInf, nanCount = 1, integer = False, bad = None\<rparr>
   \<and> NumStat_init (TStr ''foo'')
        ([OInt 1, OInt 0, OFloat NaN, OInt 3] @ [OInt 0, OStr ''3'', OFloat PInf]) [] False =
     Returned
       \<lparr>title = TStr ''foo'', count = 6, minV = Fin 0, minN = 2, maxV = PInf, maxN = 1,
        sumV = PInf, sum2 = PInf, nanCount = 1, integer = False, bad = None\<rparr>"
  using C1_merge_exact
      [of "[OInt 1, OInt 0, OFloat NaN, OInt 3]" "[OInt 0, OStr ''3'', OFloat PInf]"
          "TStr ''foo''" False True]
  by (simp add: numstat_eval numeric_def parse_eval inf_times_def)

subsection \<open>NumStat.merge with an argument of another type\<close>

text \<open>
  C2 (the code departs from the claim). The claim: \<^verbatim>\<open>s.merge(x)\<close> with \<open>x\<close> of equal
  title, neither a NumStat nor a Counter, fails with BadMergeType. The code: the method
  has no branch for such an argument, so for every NumStat \<open>s\<close> the call with a plain
  \<^verbatim>\<open>RunStat\<close> of the same title returns normally and leaves \<open>s\<close> as it was.
  \<^verbatim>\<open>Counter.merge\<close> does raise on a bad type.
\<close>

theorem C2_merge_other_type_returns:
  "NumStat_merge s (RunStatObj \<lparr>title = title s\<rparr>) = Returned s"
  by (simp add: NumStat_merge_def RunStat_merge_def)

subsection \<open>The sequence of the module's own test\<close>

text \<open>
  C3 (as amended). Adding \<^verbatim>\<open>[1, 2, 1, 3, 0, 0, 0, 0, NaN]\<close>, each with the default
  weight 1, to a fresh NumStat of any title returns normally with count 8, sumV 7,
  sum2 15, minV 0, minN 4 (the four zeros), maxV 3, maxN 1, nanCount 1 and no bad
  bucket; \<^verbatim>\<open>num()\<close> of that state is 9.
\<close>

theorem C3_add_sequence:
  "NumStat_init t
     [OInt 1, OInt 2, OInt 1, OInt 3, OInt 0, OInt 0, OInt 0, OInt 0, OFloat NaN] [] i =
   Returned \<lparr>title = t, count = 8, minV = Fin 0, minN = 4, maxV = Fin 3, maxN = 1,
     sumV = Fin 7, sum2 = Fin 15, nanCount = 1, integer = i, bad = None\<rparr>
   \<and> NumStat_num \<lparr>title = t, count = 8, minV = Fin 0, minN = 4, maxV = Fin 3, maxN = 1,
     sumV = Fin 7, sum2 = Fin 15, nanCount = 1, integer = i, bad = None\<rparr> = 9"
  by (simp add: numstat_eval)

text \<open>
  C3 as stated says minN = 5; the sequence holds four zeros and the code counts four.
\<close>

theorem C3_minN_counterexample:
  "minN (state_of (NumStat_init (TStr ''foo'')
     [OInt 1, OInt 2, OInt 1, OInt 3, OInt 0, OInt 0, OInt 0, OInt 0, OFloat NaN] []
     False)) \<noteq> 5"
  by (simp add: numstat_eval)

subsection \<open>NumStat.merge and the bad bucket\<close>

text \<open>
  C4 (the code departs from the claim). The claim: after \<^verbatim>\<open>a.merge(b)\<close> the bad
  bucket of \<open>a\<close> holds the bad observations of both operands and \<^verbatim>\<open>a.num()\<close> is the
  sum of the two \<^verbatim>\<open>num()\<close>. The code: the NumStat branch of \<^verbatim>\<open>merge\<close> never reads
  \<^verbatim>\<open>ns.bad\<close>. With \<open>a\<close> fresh and \<open>b\<close> built from the single observation
  \<^verbatim>\<open>"abc"\<close> (so \<^verbatim>\<open>b.num()\<close> is 1), the merge returns \<open>a\<close> unchanged: no bad bucket,
  \<^verbatim>\<open>num()\<close> still 0.
\<close>

theorem C4_merge_drops_bad:
  "NumStat_init (TStr ''foo'') [OStr ''abc''] [] False =
     Returned (NumStat_new (TStr ''foo'') False
       \<lparr>bad := Some \<lparr>title = TStr ''foo(bad)'', counts = [(OStr ''abc'', 1)]\<rparr>\<rparr>)
   \<and> NumStat_num (NumStat_new (TStr ''foo'') False
       \<lparr>bad := Some \<lparr>title = TStr ''foo(bad)'', counts = [(OStr ''abc'', 1)]\<rparr>\<rparr>) = 1
   \<and> NumStat_num (NumStat_new (TStr ''foo'') False) = 0
   \<and> NumStat_merge (NumStat_new (TStr ''foo'') False)
        (NumStatObj (NumStat_new (TStr ''foo'') False
          \<lparr>bad := Some \<lparr>title = TStr ''foo(bad)'', counts = [(OStr ''abc'', 1)]\<rparr>\<rparr>))
      = Returned (NumStat_new (TStr ''foo'') False)"
  by (simp add: numstat_eval NumStat_merge_def RunStat_merge_def parse_eval)

subsection \<open>Counter.merge is commutative and associative\<close>

text \<open>
  C5. For Counters \<open>a\<close>, \<open>b\<close>, \<open>c\<close> of equal titles, each in a state that
  \<^verbatim>\<open>add\<close> and \<^verbatim>\<open>merge\<close> build (distinct keys, every key passing the guard of
  \<^verbatim>\<open>add\<close>): \<^verbatim>\<open>a.merge(b)\<close> and \<^verbatim>\<open>b.merge(a)\<close>, each on the operands as given,
  return with the same \<^verbatim>\<open>counts\<close> mapping; \<^verbatim>\<open>(a.merge(b)).merge(c)\<close> and
  \<^verbatim>\<open>a.merge(b.merge(c))\<close> return with the same \<^verbatim>\<open>counts\<close> mapping; and the merge
  is the multiset union: its keys are the keys of both, and the weight of a key is the
  sum of its weights in the two operands (0 where absent).
\<close>

theorem C5_counter_merge_comm_assoc:
  assumes "wf_counter a" "wf_counter b" "wf_counter c" "title a = title b"
    "title b = title c"
  shows "\<exists>ab ba abc bc a_bc.
       Counter_merge a (CounterObj b) = Returned ab
     \<and> Counter_merge b (CounterObj a) = Returned ba
     \<and> map_of (counts ab) = map_of (counts ba)
     \<and> Counter_merge ab (CounterObj c) = Returned abc
     \<and> Counter_merge b (CounterObj c) = Returned bc
     \<and> Counter_merge a (CounterObj bc) = Returned a_bc
     \<and> map_of (counts abc) = map_of (counts a_bc)
     \<and> (\<forall>k. map_of (counts ab) k =
           (if k \<in> fst ` set (counts a) \<union> fst ` set (counts b)
            then Some (weight_of (counts a) k + weight_of (counts b) k) else None))"
proof -
  obtain ab where ab: "Counter_merge a (CounterObj b) = Returned ab" "wf_counter ab"
    "title ab = title a"
    "fst ` set (counts ab) = fst ` set (counts a) \<union> fst ` set (counts b)"
    "\<forall>k. weight_of (counts ab) k = weight_of (counts a) k + weight_of (counts b) k"
    using Counter_merge_effect [OF assms(1,2,4)] by blast
  obtain ba where ba: "Counter_merge b (CounterObj a) = Returned ba"
    "fst ` set (counts ba) = fst ` set (counts b) \<union> fst ` set (counts a)"
    "\<forall>k. weight_of (counts ba) k = weight_of (counts b) k + weight_of (counts a) k"
    using Counter_merge_effect [OF assms(2,1) assms(4) [symmetric]] by blast
  have t: "title ab = title c" using ab(3) assms(4,5) by simp
  obtain abc where abc: "Counter_merge ab (CounterObj c) = Returned abc"
    "fst ` set (counts abc) = fst ` set (counts ab) \<union> fst ` set (counts c)"
    "\<forall>k. weight_of (counts abc) k = weight_of (counts ab) k + weight_of (counts c) k"
    using Counter_merge_effect [OF ab(2) assms(3) t] by blast
  obtain bc where bc: "Counter_merge b (CounterObj c) = Returned bc" "wf_counter bc"
    "title bc = title b"
    "fst ` set (counts bc) = fst ` set (counts b) \<union> fst ` set (counts c)"
    "\<forall>k. weight_of (counts bc) k = weight_of (counts b) k + weight_of (counts c) k"
    using Counter_merge_effect [OF assms(2,3,5)] by blast
  have t': "title a = title bc" using bc(3) assms(4) by simp
  obtain a_bc where a_bc: "Counter_merge a (CounterObj bc) = Returned a_bc"
    "fst ` set (counts a_bc) = fst ` set (counts a) \<union> fst ` set (counts bc)"
    "\<forall>k. weight_of (counts a_bc) k = weight_of (counts a) k + weight_of (counts bc) k"
    using Counter_merge_effect [OF assms(1) bc(2) t'] by blast
  have comm: "map_of (counts ab) = map_of (counts ba)"
    by (rule counts_eqI) (auto simp: ab(4,5) ba(2,3))
  have assoc: "map_of (counts abc) = map_of (counts a_bc)"
    by (rule counts_eqI) (auto simp: abc(2,3) ab(4,5) a_bc(2,3) bc(4,5))
  have union: "\<forall>k. map_of (counts ab) k =
           (if k \<in> fst ` set (counts a) \<union> fst ` set (counts b)
            then Some (weight_of (counts a) k + weight_of (counts b) k) else None)"
    by (simp add: map_of_weight [of "counts ab"] ab(4,5))
  show ?thesis
    using ab(1) ba(1) abc(1) bc(1) a_bc(1) comm assoc union by blast
qed

theorem C5_counter_merge_comm_assoc_witness:
  "map_of (counts (state_of (Counter_merge
      \<lparr>title = TStr ''foo'', counts = [(OStr ''a'', 3), (OStr ''b'', 2), (OStr ''c'', 1)]\<rparr>
      (CounterObj \<lparr>title = TStr ''foo'',
         counts = [(OStr ''c'', 2), (OStr ''d'', 1), (ONone, 2)]\<rparr>)))) =
   map_of (counts (state_of (Counter_merge
      \<lparr>title = TStr ''foo'', counts = [(OStr ''c'', 2), (OStr ''d'', 1), (ONone, 2)]\<rparr>
      (CounterObj \<lparr>title = TStr ''foo'',
         counts = [(OStr ''a'', 3), (OStr ''b'', 2), (OStr ''c'', 1)]\<rparr>))))
   \<and> map_of (counts (state_of (Counter_merge
      \<lparr>title = TStr ''foo'', counts = [(OStr ''a'', 3), (OStr ''b'', 2), (OStr ''c'', 1)]\<rparr>
      (CounterObj \<lparr>title = TStr ''foo'',
         counts = [(OStr ''c'', 2), (OStr ''d'', 1), (ONone, 2)]\<rparr>)))) (OStr ''c'') = Some 3"
  using C5_counter_merge_comm_assoc
      [of "\<lparr>title = TStr ''foo'', counts = [(OStr ''a'', 3), (OStr ''b'', 2), (OStr ''c'', 1)]\<rparr>"
          "\<lparr>title = TStr ''foo'', counts = [(OStr ''c'', 2), (OStr ''d'', 1), (ONone, 2)]\<rparr>"
          "\<lparr>title = TStr ''foo'', counts = [(OInt 7, 1)]\<rparr>"]
  by (auto simp: wf_counter_def weight_of_alt)

subsection \<open>Merging a Counter into a NumStat\<close>

text \<open>
  C6 (as amended). \<^verbatim>\<open>NumStat.merge(Counter)\<close> hands every raw key of the Counter to
  \<^verbatim>\<open>add\<close>, which attempts the numeric coercion again. For a NumStat \<open>s\<close> whose bad
  bucket is the one \<^verbatim>\<open>add\<close> creates and a Counter \<open>c\<close> of the same title, its keys
  distinct as in a dict, its integer keys and its weights in the range of a double, the
  merge returns a state \<open>s'\<close> where
  \<^item> every key that \<^verbatim>\<open>float\<close> accepts (the text \<^verbatim>\<open>"2"\<close> among them) has become a
    numeric observation: apart from the bad bucket, \<open>s'\<close> is \<open>s\<close> after the update of
    \<^verbatim>\<open>add\<close> for the float of each such key with its weight, in the order of the
    dict, that is count, sumV, sum2 and the extrema for a number and nanCount for NaN;
    so count has grown by the weights of the keys that coerce to a number and nanCount
    by the weights of those that coerce to NaN;
  \<^item> a key is added to the bad bucket exactly when \<^verbatim>\<open>float\<close> rejects it, and its
    weight there is its old weight in the bucket, or 0, plus its weight in \<open>c\<close>; every
    other entry of the bucket is as before, so what was in bad stays in bad.
\<close>

theorem C6_merge_counter_coerces:
  assumes "title s = title c" "inv_bad s" "distinct (map fst (counts c))"
    "list_all entry_fits (counts c)"
  shows "\<exists>s'. NumStat_merge s (CounterObj c) = Returned s'
     \<and> s'\<lparr>bad := bad s\<rparr> = add_floats s (coerced (counts c))
     \<and> count s' =
         count s + sum_list (map snd (filter (\<lambda>e. \<not> isnan (fst e)) (coerced (counts c))))
     \<and> nanCount s' =
         nanCount s + sum_list (map snd (filter (\<lambda>e. isnan (fst e)) (coerced (counts c))))
     \<and> (\<forall>k. map_of (bad_counts s') k =
           (if \<not> numeric k \<and> k \<in> fst ` set (counts c)
            then Some ((case map_of (bad_counts s) k of None \<Rightarrow> 0 | Some w \<Rightarrow> w)
                     + (case map_of (counts c) k of None \<Rightarrow> 0 | Some w \<Rightarrow> w))
            else map_of (bad_counts s) k))"
proof -
  have m: "NumStat_merge s (CounterObj c) = NumStat_add_items s (counts c)"
    using assms(1) by (simp add: NumStat_merge_def)
  obtain s' where s': "NumStat_add_items s (counts c) = Returned s'"
    "s'\<lparr>bad := bad s\<rparr> = add_floats s (coerced (counts c))"
    using NumStat_add_items_stats [OF assms(2,4)] by blast
  have b: "\<forall>k. map_of (bad_counts s') k =
           (if \<not> numeric k \<and> k \<in> fst ` set (counts c)
            then Some (weight_of (bad_counts s) k + weight_of (counts c) k)
            else map_of (bad_counts s) k)"
    using NumStat_add_items_effect [OF assms(2,4,3)] s'(1) by auto
  have "count (s'\<lparr>bad := bad s\<rparr>) = count (add_floats s (coerced (counts c)))"
    and "nanCount (s'\<lparr>bad := bad s\<rparr>) = nanCount (add_floats s (coerced (counts c)))"
    using s'(2) by simp_all
  then have c: "count s' =
         count s + sum_list (map snd (filter (\<lambda>e. \<not> isnan (fst e)) (coerced (counts c))))"
    and n: "nanCount s' =
         nanCount s + sum_list (map snd (filter (\<lambda>e. isnan (fst e)) (coerced (counts c))))"
    by (simp_all add: add_floats_count add_floats_nanCount)
  show ?thesis
    using s' b c n by (simp add: m weight_of_def)
qed

theorem C6_merge_counter_coerces_witness:
  "NumStat_merge
     (NumStat_new (TStr ''foo'') False
        \<lparr>bad := Some \<lparr>title = TStr ''foo(bad)'', counts = [(OStr ''a'', 1)]\<rparr>\<rparr>)
     (CounterObj \<lparr>title = TStr ''foo'',
        counts = [(OInt 1, 1), (OStr ''2'', 1), (OStr ''a'', 1), (OStr ''nan'', 4)]\<rparr>) =
   Returned
     \<lparr>title = TStr ''foo'', count = 2, minV = Fin 1, minN = 1, maxV = Fin 2, maxN = 1,
      sumV = Fin 3, sum2 = Fin 5, nanCount = 4, integer = False,
      bad = Some \<lparr>title = TStr ''foo(bad)'', counts = [(OStr ''a'', 2)]\<rparr>\<rparr>"
  using C6_merge_counter_coerces
      [of "NumStat_new (TStr ''foo'') False
             \<lparr>bad := Some \<lparr>title = TStr ''foo(bad)'', counts = [(OStr ''a'', 1)]\<rparr>\<rparr>"
          "\<lparr>title = TStr ''foo'',
            counts = [(OInt 1, 1), (OStr ''2'', 1), (OStr ''a'', 1), (OStr ''nan'', 4)]\<rparr>"]
  by (simp add: NumStat_merge_def RunStat_merge_def numstat_eval parse_eval)

text \<open>
  C6 as stated says a numeric-looking text key of the Counter does not become a valid
  numeric observation. Merging the Counter \<^verbatim>\<open>{"2": 1}\<close> into a fresh NumStat gives
  count 1, sumV 2, minV = maxV = 2 and no bad bucket.
\<close>

theorem C6_numeric_text_counterexample:
  "NumStat_merge (NumStat_new (TStr ''foo'') False)
     (CounterObj \<lparr>title = TStr ''foo'', counts = [(OStr ''2'', 1)]\<rparr>) =
   Returned
     \<lparr>title = TStr ''foo'', count = 1, minV = Fin 2, minN = 1, maxV = Fin 2, maxN = 1,
      sumV = Fin 2, sum2 = Fin 4, nanCount = 0, integer = False, bad = None\<rparr>"
  by (simp add: NumStat_merge_def RunStat_merge_def numstat_eval parse_eval)

subsection \<open>Counter.add under a tuple title\<close>

text \<open>
  C7. For a Counter whose title is a tuple of \<open>k\<close> members, \<^verbatim>\<open>add(observation, n)\<close>
  raises IncompatibleObservation, carrying the title and the observation, and leaves the
  Counter as it was, whenever the observation is not a tuple of \<open>k\<close> members; for a
  tuple of \<open>k\<close> members it returns, the title is kept and \<^verbatim>\<open>counts\<close> is the old
  mapping with the observation mapped to its old weight, or 0 when it was absent,
  increased by \<open>n\<close>.
\<close>

theorem C7_counter_add_tuple_title:
  assumes "title c = TTuple ts"
  shows "(\<not> (\<exists>os. ob = OTuple os \<and> length os = length ts) \<longrightarrow>
            Counter_add c ob n = Raised (IncompatibleObservation (title c) ob) c)
       \<and> ((\<exists>os. ob = OTuple os \<and> length os = length ts) \<longrightarrow>
            (\<exists>c'. Counter_add c ob n = Returned c' \<and> title c' = title c
               \<and> map_of (counts c') =
                   (map_of (counts c))
                     (ob \<mapsto> (case map_of (counts c) ob of None \<Rightarrow> 0 | Some w \<Rightarrow> w) + n)))"
  using assms
  by (cases ob) (auto simp: Counter_add_def dict_get_def update_conv')

theorem C7_counter_add_tuple_title_witness:
  "Counter_add
      \<lparr>title = TTuple [TStr ''a'', TStr ''b''],
       counts = [(OTuple [OStr ''x'', OStr ''y''], 5)]\<rparr>
      (OTuple [OStr ''x'', OStr ''y'', OStr ''z'']) 1 =
     Raised (IncompatibleObservation (TTuple [TStr ''a'', TStr ''b''])
               (OTuple [OStr ''x'', OStr ''y'', OStr ''z'']))
       \<lparr>title = TTuple [TStr ''a'', TStr ''b''],
        counts = [(OTuple [OStr ''x'', OStr ''y''], 5)]\<rparr>
   \<and> (\<exists>c'. Counter_add
           \<lparr>title = TTuple [TStr ''a'', TStr ''b''],
            counts = [(OTuple [OStr ''x'', OStr ''y''], 5)]\<rparr>
           (OTuple [OStr ''x'', OStr ''y'']) 1 = Returned c'
         \<and> map_of (counts c') (OTuple [OStr ''x'', OStr ''y'']) = Some 6)
   \<and> (\<exists>c'. Counter_add
           \<lparr>title = TTuple [TStr ''a'', TStr ''b''],
            counts = [(OTuple [OStr ''x'', OStr ''y''], 5)]\<rparr>
           (OTuple [OStr ''x'', OStr ''w'']) 2 = Returned c'
         \<and> map_of (counts c') (OTuple [OStr ''x'', OStr ''w'']) = Some 2
         \<and> map_of (counts c') (OTuple [OStr ''x'', OStr ''y'']) = Some 5)"
  using C7_counter_add_tuple_title
      [of "\<lparr>title = TTuple [TStr ''a'', TStr ''b''],
            counts = [(OTuple [OStr ''x'', OStr ''y''], 5)]\<rparr>"
          "[TStr ''a'', TStr ''b'']" "OTuple [OStr ''x'', OStr ''y'', OStr ''z'']" 1]
    C7_counter_add_tuple_title
      [of "\<lparr>title = TTuple [TStr ''a'', TStr ''b''],
            counts = [(OTuple [OStr ''x'', OStr ''y''], 5)]\<rparr>"
          "[TStr ''a'', TStr ''b'']" "OTuple [OStr ''x'', OStr ''y'']" 1]
    C7_counter_add_tuple_title
      [of "\<lparr>title = TTuple [TStr ''a'', TStr ''b''],
            counts = [(OTuple [OStr ''x'', OStr ''y''], 5)]\<rparr>"
          "[TStr ''a'', TStr ''b'']" "OTuple [OStr ''x'', OStr ''w'']" 2]
  by auto

subsection \<open>The order of the checks in Counter.merge\<close>




subsection \<open>NumStat.add returns\<close>




end
